theory Spec2Isabelle
  imports Main "HOL-Library.Multiset"
begin

section \<open>Errors and HTTP outcomes\<close>

text \<open>
  Exceptions of the Python source are values of \<open>error\<close>; a function that can raise
  returns \<open>error + 'a\<close>, with \<open>Inl\<close> for the exception that reaches the caller.
\<close>

datatype error =
    HTTPError nat
  | JSONDecodeError
  | AttributeError
  | IndexError
  | TypeError
  | AssertionError
  | ValueError
  | OverflowError
  | RequestException

text \<open>
  What one call of \<open>self.get\<close> in \<open>__query_builder\<close> can produce.
  \<^item> \<open>Ok b\<close>: \<open>res.ok\<close> holds and \<open>res.json()\<close> is the page body \<open>b\<close>;
  \<^item> \<open>Raised (Fail st body)\<close>: \<open>res.raise_for_status()\<close> raises for status code
    \<open>st\<close>; \<open>body\<close> is what \<open>err.response.json().get('error')\<close> gives: \<open>NotJson\<close> when
    the body does not decode, otherwise the value under the key \<open>error\<close>, if any;
  \<^item> \<open>Raised NoResponse\<close>: the transport raised a \<open>RequestException\<close> that carries
    no response (\<open>err.response\<close> is \<open>None\<close>).
\<close>

datatype err_body = NotJson | JsonError "string option"

datatype failure = Fail nat err_body | NoResponse

datatype 'a response = Ok 'a | Raised failure

section \<open>The page loop of \<open>__query_builder\<close>\<close>

definition max_entries_per_request :: int where
  "max_entries_per_request = 5"

text \<open>\<open>limit\<close> after \<open>if limit is None: limit = inf\<close>: \<open>None\<close> stands for \<open>inf\<close>.\<close>

fun lt_limit :: "int \<Rightarrow> int option \<Rightarrow> bool" where
  "lt_limit offset None = True"
| "lt_limit offset (Some l) = (offset < l)"

fun gt_limit :: "int option \<Rightarrow> int \<Rightarrow> bool" where
  "gt_limit None m = True"
| "gt_limit (Some l) m = (l > m)"

text \<open>
  The \<open>except\<close> clause of the loop: \<open>None\<close> is \<open>break\<close>, \<open>Some e\<close> is the exception
  that leaves the function. The conjunction is evaluated left to right, so the body is
  only decoded for status 404.
\<close>

fun on_exception :: "failure \<Rightarrow> 'a list \<Rightarrow> error option" where
  "on_exception NoResponse list_of_res = Some AttributeError"
| "on_exception (Fail st body) list_of_res =
     (if st = 404 then
        (case body of
           NotJson \<Rightarrow> Some JSONDecodeError
         | JsonError e \<Rightarrow>
             (if e = Some ''Not Found'' \<and> length list_of_res > 0 then None
              else Some (HTTPError st)))
      else Some (HTTPError st))"

text \<open>
  \<open>while offset < limit\<close>. The request function \<open>get\<close> receives the two entries of
  \<open>params\<close> that the function sets for pagination, \<open>limit\<close> and \<open>offset\<close>; all other
  entries are fixed before the loop. The loop need not end (\<open>limit = inf\<close> and a service
  that always answers), so it is a partial function: \<open>None\<close> is divergence. The result
  carries the list of requests issued, as (limit, offset) pairs.
\<close>

partial_function (option) query_loop ::
  "(int \<Rightarrow> int \<Rightarrow> 'a response) \<Rightarrow> int option \<Rightarrow> int \<Rightarrow> int \<Rightarrow> 'a list \<Rightarrow> (int \<times> int) list
     \<Rightarrow> ((error + 'a list) \<times> (int \<times> int) list) option" where
  "query_loop get limit p_limit offset list_of_res reqs =
     (if lt_limit offset limit then
        (case get p_limit offset of
           Ok b \<Rightarrow>
             query_loop get limit p_limit (offset + max_entries_per_request)
               (list_of_res @ [b]) (reqs @ [(p_limit, offset)])
         | Raised err \<Rightarrow>
             (case on_exception err list_of_res of
                None \<Rightarrow> Some (Inr list_of_res, reqs @ [(p_limit, offset)])
              | Some e \<Rightarrow> Some (Inl e, reqs @ [(p_limit, offset)])))
      else Some (Inr list_of_res, reqs))"

text \<open>
  \<open>__query_builder\<close>: \<open>limit\<close> and \<open>offset\<close> are the caller's arguments (\<open>None\<close> when
  unset). \<open>params['limit']\<close> is \<open>max_entries_per_request\<close> when \<open>limit\<close> exceeds it and
  \<open>limit\<close> otherwise; a missing \<open>offset\<close> is 0.
\<close>

definition page_limit :: "int option \<Rightarrow> int" where
  "page_limit limit =
     (if gt_limit limit max_entries_per_request then max_entries_per_request
      else (case limit of Some l \<Rightarrow> l | None \<Rightarrow> max_entries_per_request))"

fun start_offset :: "int option \<Rightarrow> int" where
  "start_offset None = 0"
| "start_offset (Some off) = off"

definition query_builder ::
  "(int \<Rightarrow> int \<Rightarrow> 'a response) \<Rightarrow> int option \<Rightarrow> int option
     \<Rightarrow> ((error + 'a list) \<times> (int \<times> int) list) option" where
  "query_builder get limit offset =
     query_loop get limit (page_limit limit) (start_offset offset) [] []"

text \<open>The offsets \<open>off, off + 5, \<dots>\<close> of \<open>n\<close> consecutive pages.\<close>

definition page_offsets :: "int \<Rightarrow> nat \<Rightarrow> int list" where
  "page_offsets off n = map (\<lambda>i. off + max_entries_per_request * int i) [0..<n]"

text \<open>The body of a successful response.\<close>

fun body_of :: "'a response \<Rightarrow> 'a option" where
  "body_of (Ok b) = Some b"
| "body_of (Raised err) = None"

fun is_ok :: "'a response \<Rightarrow> bool" where
  "is_ok (Ok b) = True"
| "is_ok (Raised err) = False"

text \<open>The service's "not found" answer: status 404 with \<open>error\<close> equal to \<open>Not Found\<close>.\<close>

definition not_found :: failure where
  "not_found = Fail 404 (JsonError (Some ''Not Found''))"


section \<open>Time series and the merge of page bodies\<close>

text \<open>
  \<open>TimeSeries\<close>, \<open>AttributeValues\<close> and \<open>TimeSeriesHeader\<close> live in
  \<open>filip.models.ngsi_v2.timeseries\<close>. The records follow the data model: a series has an
  optional entity id and type, an index of timestamps and a list of attributes, each a
  name with a list of values. Values are of an arbitrary type \<open>'v\<close>; timestamps are
  strings. A page body is modelled after decoding.
\<close>

record 'v attribute_values =
  attrName :: string
  attr_values :: "'v list"

record 'v time_series =
  entityId :: "string option"
  entityType :: "string option"
  index :: "string list"
  attributes :: "'v attribute_values list"

text \<open>
  Modelled from the spec: \<open>TimeSeries.extend\<close> (the class is not among the sources).
  It appends the other series' index entries and each matching attribute's values to the
  running series; an attribute matches by name. It checks nothing and never fails.
  (The name \<open>extend\<close> is taken by the record package.)
\<close>

definition extend_attr :: "'v attribute_values list \<Rightarrow> 'v attribute_values \<Rightarrow> 'v attribute_values" where
  "extend_attr others a =
     (case find (\<lambda>b. attrName b = attrName a) others of
        None \<Rightarrow> a
      | Some b \<Rightarrow> a\<lparr>attr_values := attr_values a @ attr_values b\<rparr>)"

definition extend_ts :: "'v time_series \<Rightarrow> 'v time_series \<Rightarrow> 'v time_series" where
  "extend_ts self other =
     self\<lparr>index := index self @ index other,
          attributes := map (extend_attr (attributes other)) (attributes self)\<rparr>"

text \<open>The parallel-array invariant: every attribute has one value per index entry.\<close>

definition aligned :: "'v time_series \<Rightarrow> bool" where
  "aligned ts = list_all (\<lambda>a. length (attr_values a) = length (index ts)) (attributes ts)"

text \<open>Every attribute of \<open>ts\<close> has an attribute of the same name in \<open>other\<close>.\<close>

definition covers :: "'v time_series \<Rightarrow> 'v time_series \<Rightarrow> bool" where
  "covers other ts =
     list_all (\<lambda>a. attrName a \<in> set (map attrName (attributes other))) (attributes ts)"

text \<open>
  \<open>get_entity_by_id\<close>: \<open>res = TimeSeries.parse_obj(list_of_res[0])\<close>, then
  \<open>res.extend(TimeSeries.parse_obj(item))\<close> for each later item. \<open>list_of_res[0]\<close> raises
  \<open>IndexError\<close> on an empty list.
\<close>

fun merge_chunks :: "'v time_series list \<Rightarrow> error + 'v time_series" where
  "merge_chunks [] = Inl IndexError"
| "merge_chunks (first # items) = Inr (foldl extend_ts first items)"

definition get_entity_by_id ::
  "(int \<Rightarrow> int \<Rightarrow> 'v time_series response) \<Rightarrow> int option \<Rightarrow> int option
     \<Rightarrow> ((error + 'v time_series) \<times> (int \<times> int) list) option" where
  "get_entity_by_id get limit offset =
     (case query_builder get limit offset of
        None \<Rightarrow> None
      | Some (r, reqs) \<Rightarrow>
          Some (case r of Inl e \<Rightarrow> Inl e | Inr list_of_res \<Rightarrow> merge_chunks list_of_res, reqs))"

text \<open>
  \<open>get_entities\<close>: \<open>parse_obj_as(List[TimeSeriesHeader], res[0])\<close>. A page body is the
  decoded list of headers, of an arbitrary type \<open>'h\<close>.
\<close>

fun first_page :: "'b list \<Rightarrow> error + 'b" where
  "first_page [] = Inl IndexError"
| "first_page (b # bs) = Inr b"

definition get_entities ::
  "(int \<Rightarrow> int \<Rightarrow> 'h list response) \<Rightarrow> int option \<Rightarrow> int option
     \<Rightarrow> ((error + 'h list) \<times> (int \<times> int) list) option" where
  "get_entities get limit offset =
     (case query_builder get limit offset of
        None \<Rightarrow> None
      | Some (r, reqs) \<Rightarrow>
          Some (case r of Inl e \<Rightarrow> Inl e | Inr res \<Rightarrow> first_page res, reqs))"

subsection \<open>Queries by type\<close>

text \<open>
  A per-entity fragment of a by-type page body: the keyword arguments \<open>**item\<close> of
  \<open>TimeSeries(entityType=entity_type, **item)\<close>. The body holds the fragments under
  \<open>entities\<close> (\<open>get_entity_by_type\<close>) or under \<open>values\<close> (\<open>get_entity_values_by_type\<close>);
  \<open>.get\<close> on a missing key gives \<open>None\<close>, and iterating over \<open>None\<close> raises \<open>TypeError\<close>.
\<close>

record 'v fragment =
  frag_entityId :: "string option"
  frag_index :: "string list"
  frag_attributes :: "'v attribute_values list"

record 'v type_body =
  body_entities :: "'v fragment list option"
  body_values :: "'v fragment list option"

definition TimeSeries :: "string \<Rightarrow> 'v fragment \<Rightarrow> 'v time_series" where
  "TimeSeries entity_type item =
     \<lparr>entityId = frag_entityId item, entityType = Some entity_type,
      index = frag_index item, attributes = frag_attributes item\<rparr>"

text \<open>
  \<open>for new, old in zip(chunk, res): old.extend(new)\<close>: the series of \<open>res\<close> after the
  loop. \<open>zip\<close> stops at the shorter list.
\<close>

fun zip_extend :: "'v time_series list \<Rightarrow> 'v time_series list \<Rightarrow> 'v time_series list" where
  "zip_extend [] chunk = []"
| "zip_extend (old # res) [] = old # res"
| "zip_extend (old # res) (new # chunk) = extend_ts old new # zip_extend res chunk"

fun merge_type_chunks ::
  "string \<Rightarrow> 'v time_series list \<Rightarrow> 'v fragment list option list \<Rightarrow> error + 'v time_series list" where
  "merge_type_chunks entity_type res [] = Inr res"
| "merge_type_chunks entity_type res (None # chunks) = Inl TypeError"
| "merge_type_chunks entity_type res (Some items # chunks) =
     merge_type_chunks entity_type (zip_extend res (map (TimeSeries entity_type) items)) chunks"

fun merge_by_type ::
  "string \<Rightarrow> ('b \<Rightarrow> 'v fragment list option) \<Rightarrow> 'b list \<Rightarrow> error + 'v time_series list" where
  "merge_by_type entity_type field [] = Inl IndexError"
| "merge_by_type entity_type field (first # rest) =
     (case field first of
        None \<Rightarrow> Inl TypeError
      | Some items \<Rightarrow>
          merge_type_chunks entity_type (map (TimeSeries entity_type) items) (map field rest))"

definition get_entity_by_type ::
  "(int \<Rightarrow> int \<Rightarrow> 'v type_body response) \<Rightarrow> string \<Rightarrow> int option \<Rightarrow> int option
     \<Rightarrow> ((error + 'v time_series list) \<times> (int \<times> int) list) option" where
  "get_entity_by_type get entity_type limit offset =
     (case query_builder get limit offset of
        None \<Rightarrow> None
      | Some (r, reqs) \<Rightarrow>
          Some (case r of Inl e \<Rightarrow> Inl e
                | Inr list_of_res \<Rightarrow> merge_by_type entity_type body_entities list_of_res, reqs))"

definition get_entity_values_by_type ::
  "(int \<Rightarrow> int \<Rightarrow> 'v type_body response) \<Rightarrow> string \<Rightarrow> int option \<Rightarrow> int option
     \<Rightarrow> ((error + 'v time_series list) \<times> (int \<times> int) list) option" where
  "get_entity_values_by_type get entity_type limit offset =
     (case query_builder get limit offset of
        None \<Rightarrow> None
      | Some (r, reqs) \<Rightarrow>
          Some (case r of Inl e \<Rightarrow> Inl e
                | Inr list_of_res \<Rightarrow> merge_by_type entity_type body_values list_of_res, reqs))"


section \<open>The simple query language\<close>




text \<open>
  The right-hand side of a statement is a string or an integer (a \<open>float\<close> right-hand
  side is outside the model). The operator is the string the caller passes.
\<close>

datatype rhs = RStr string | RInt int

type_synonym statement = "string \<times> string \<times> rhs"

subsection \<open>Python's \<open>float()\<close> and \<open>str()\<close> on the right-hand side\<close>

















subsection \<open>\<open>Statement\<close> and \<open>create_query\<close>\<close>




text \<open>
  An element of the argument of \<open>create_query\<close> is a \<open>Statement\<close> already built, or a
  raw triple, which \<open>Statement(*statement)\<close> validates. The argument itself is a list or
  a single element, which the function wraps into a list.
\<close>

datatype item = Stmt statement | Triple string string rhs









section \<open>\<open>post_subscription\<close>\<close>

datatype pvalue = PStr string | PInt int | PBytes string

text \<open>Truth value of an optional string or integer in an \<open>if\<close>.\<close>

fun truthy_str :: "string option \<Rightarrow> bool" where
  "truthy_str None = False"
| "truthy_str (Some s) = (s \<noteq> [])"

fun truthy_int :: "int option \<Rightarrow> bool" where
  "truthy_int None = False"
| "truthy_int (Some n) = (n \<noteq> 0)"

definition put_str :: "string \<Rightarrow> string option \<Rightarrow> (string \<rightharpoonup> pvalue) \<Rightarrow> (string \<rightharpoonup> pvalue)" where
  "put_str key v params = (if truthy_str v then params(key \<mapsto> PStr (the v)) else params)"

text \<open>
  \<open>post\<close> is the HTTP request; \<open>orion_url\<close> and \<open>ql_url\<close> are the two joined URLs. The
  result is the outcome together with the parameter sets of the requests made.
\<close>

definition post_subscription ::
  "((string \<rightharpoonup> pvalue) \<Rightarrow> unit response) \<Rightarrow> string \<Rightarrow> string
     \<Rightarrow> string option \<Rightarrow> string option \<Rightarrow> string option \<Rightarrow> string option \<Rightarrow> string option
     \<Rightarrow> string option \<Rightarrow> int option \<Rightarrow> string option
     \<Rightarrow> (error + unit) \<times> (string \<rightharpoonup> pvalue) list" where
  "post_subscription post orion_url ql_url entity_type entity_id id_pattern attrs
       observed_attributes notified_attributes throttling time_index_attribute =
     (let params = [''orionUrl'' \<mapsto> PBytes orion_url, ''quantumleapUrl'' \<mapsto> PBytes ql_url];
          params = put_str ''entityType'' entity_type params;
          params = put_str ''entityId'' entity_id params;
          params = put_str ''idPattern'' id_pattern params;
          params = put_str ''attributes'' attrs params;
          params = put_str ''observedAttributes'' observed_attributes params;
          params = put_str ''notifiedAttributes'' notified_attributes params
      in if truthy_int throttling \<and> the throttling < 1 then (Inl TypeError, [])
         else
           (let params = (if truthy_int throttling
                          then params(''throttling'' \<mapsto> PInt (the throttling)) else params);
                params = put_str ''timeIndexAttribute'' time_index_attribute params
            in (case post params of
                  Ok u \<Rightarrow> (Inr (), [params])
                | Raised (Fail st body) \<Rightarrow> (Inl (HTTPError st), [params])
                | Raised NoResponse \<Rightarrow> (Inl RequestException, [params]))))"


text \<open>What the \<open>try\<close> block around the request gives for a response.\<close>

fun post_outcome :: "unit response \<Rightarrow> error + unit" where
  "post_outcome (Ok u) = Inr ()"
| "post_outcome (Raised (Fail st body)) = Inl (HTTPError st)"
| "post_outcome (Raised NoResponse) = Inl RequestException"

text \<open>A subscription endpoint that accepts every request.\<close>

fun accepting_post :: "(string \<rightharpoonup> pvalue) \<Rightarrow> unit response" where
  "accepting_post params = Ok ()"

section \<open>Example services\<close>

text \<open>
  A service with two pages of data, at offsets 0 and 5, that answers "not found"
  at every other offset.
\<close>

fun two_pages :: "int \<Rightarrow> int \<Rightarrow> string response" where
  "two_pages p_limit offset =
     (if offset = 0 then Ok ''p0'' else if offset = 5 then Ok ''p1'' else Raised not_found)"

text \<open>A service that answers every request with the same body.\<close>

fun always_ok :: "int \<Rightarrow> int \<Rightarrow> string response" where
  "always_ok p_limit offset = Ok ''p''"


text \<open>
  A service for one entity with three samples of one attribute: two on the page at
  offset 0, one on the page at offset 5, "not found" elsewhere.
\<close>

definition series_page0 :: "int time_series" where
  "series_page0 =
     \<lparr>entityId = Some ''E1'', entityType = Some ''Room'', index = [''t0'', ''t1''],
      attributes = [\<lparr>attrName = ''temperature'', attr_values = [20, 21]\<rparr>]\<rparr>"

definition series_page1 :: "int time_series" where
  "series_page1 =
     \<lparr>entityId = Some ''E1'', entityType = Some ''Room'', index = [''t2''],
      attributes = [\<lparr>attrName = ''temperature'', attr_values = [22]\<rparr>]\<rparr>"

fun series_service :: "int \<Rightarrow> int \<Rightarrow> int time_series response" where
  "series_service p_limit offset =
     (if offset = 0 then Ok series_page0 else if offset = 5 then Ok series_page1
      else Raised not_found)"

text \<open>
  A listing service with five headers on the page at offset 0 and one on the page at
  offset 5. A header is represented by its entity id.
\<close>

fun headers_service :: "int \<Rightarrow> int \<Rightarrow> string list response" where
  "headers_service p_limit offset =
     (if offset = 0 then Ok [''E1'', ''E2'', ''E3'', ''E4'', ''E5'']
      else if offset = 5 then Ok [''E6''] else Raised not_found)"

text \<open>A fragment with one sample of the attribute \<open>temperature\<close>.\<close>

definition sample :: "string \<Rightarrow> string \<Rightarrow> int \<Rightarrow> int fragment" where
  "sample entity_id t v =
     \<lparr>frag_entityId = Some entity_id, frag_index = [t],
      frag_attributes = [\<lparr>attrName = ''temperature'', attr_values = [v]\<rparr>]\<rparr>"

definition by_type_page :: "int fragment list \<Rightarrow> int type_body" where
  "by_type_page items = \<lparr>body_entities = Some items, body_values = Some items\<rparr>"

text \<open>
  A by-type service whose second page lists the two entities of the first page in the
  opposite order.
\<close>

fun reordering_service :: "int \<Rightarrow> int \<Rightarrow> int type_body response" where
  "reordering_service p_limit offset =
     (if offset = 0 then Ok (by_type_page [sample ''E1'' ''t0'' 20, sample ''E2'' ''t0'' 30])
      else if offset = 5 then Ok (by_type_page [sample ''E2'' ''t1'' 31, sample ''E1'' ''t1'' 21])
      else Raised not_found)"

text \<open>
  A by-type service with two fragments on its first page, three on the second and one
  on the third.
\<close>

fun uneven_service :: "int \<Rightarrow> int \<Rightarrow> int type_body response" where
  "uneven_service p_limit offset =
     (if offset = 0 then Ok (by_type_page [sample ''E1'' ''t0'' 20, sample ''E2'' ''t0'' 30])
      else if offset = 5 then
        Ok (by_type_page [sample ''E1'' ''t1'' 21, sample ''E2'' ''t1'' 31, sample ''E3'' ''t1'' 41])
      else if offset = 10 then Ok (by_type_page [sample ''E1'' ''t2'' 22])
      else Raised not_found)"

text \<open>
  A service for one entity whose second page carries another attribute than the
  first: \<open>temperature\<close> at offset 0, \<open>humidity\<close> at offset 5.
\<close>

definition mixed_page0 :: "int time_series" where
  "mixed_page0 =
     \<lparr>entityId = Some ''E1'', entityType = Some ''Room'', index = [''t0'', ''t1''],
      attributes = [\<lparr>attrName = ''temperature'', attr_values = [20, 21]\<rparr>]\<rparr>"

definition mixed_page1 :: "int time_series" where
  "mixed_page1 =
     \<lparr>entityId = Some ''E1'', entityType = Some ''Room'', index = [''t2''],
      attributes = [\<lparr>attrName = ''humidity'', attr_values = [50]\<rparr>]\<rparr>"

fun mixed_service :: "int \<Rightarrow> int \<Rightarrow> int time_series response" where
  "mixed_service p_limit offset =
     (if offset = 0 then Ok mixed_page0 else if offset = 5 then Ok mixed_page1
      else Raised not_found)"

section \<open>Properties of the page loop\<close>

lemma page_offsets_0: "page_offsets off 0 = []"
  by (simp add: page_offsets_def)

lemma page_offsets_Suc: "page_offsets off (Suc n) = off # page_offsets (off + max_entries_per_request) n"
  unfolding page_offsets_def
  by (simp add: upt_rec[of 0] map_Suc_upt[symmetric] del: upt_Suc) (simp add: algebra_simps)

lemma length_page_offsets: "length (page_offsets off n) = n"
  by (simp add: page_offsets_def)

lemma lt_limit_mono: "lt_limit y limit \<Longrightarrow> x \<le> y \<Longrightarrow> lt_limit x limit"
  by (cases limit) auto

lemma page_offsets_le: "x \<in> set (page_offsets off n) \<Longrightarrow> x < off + max_entries_per_request * int n"
  by (auto simp: page_offsets_def max_entries_per_request_def)

lemma query_loop_ok_pages:
  assumes "map (get pl) (page_offsets off n) = map Ok bs"
    and "\<forall>x \<in> set (page_offsets off n). lt_limit x limit"
  shows "query_loop get limit pl off acc reqs =
         query_loop get limit pl (off + max_entries_per_request * int n)
            (acc @ bs) (reqs @ map (Pair pl) (page_offsets off n))"
  using assms
proof (induction n arbitrary: off acc reqs bs)
  case 0
  then show ?case by (simp add: page_offsets_0)
next
  case (Suc n)
  from Suc.prems(1) obtain b bs' where bs: "bs = b # bs'"
    and b: "get pl off = Ok b"
    and rest: "map (get pl) (page_offsets (off + max_entries_per_request) n) = map Ok bs'"
    by (cases bs) (auto simp: page_offsets_Suc)
  have lt: "lt_limit off limit"
    using Suc.prems(2) by (simp add: page_offsets_Suc)
  have step: "query_loop get limit pl off acc reqs =
      query_loop get limit pl (off + max_entries_per_request) (acc @ [b]) (reqs @ [(pl, off)])"
    by (subst query_loop.simps) (simp add: lt b)
  have "\<forall>x \<in> set (page_offsets (off + max_entries_per_request) n). lt_limit x limit"
    using Suc.prems(2) by (simp add: page_offsets_Suc)
  from Suc.IH[OF rest this] show ?case
    by (simp add: step bs page_offsets_Suc algebra_simps)
qed

lemma query_loop_stop:
  "\<not> lt_limit off limit \<Longrightarrow> query_loop get limit pl off acc reqs = Some (Inr acc, reqs)"
  by (subst query_loop.simps) simp

lemma query_loop_raised:
  "lt_limit off limit \<Longrightarrow> get pl off = Raised err \<Longrightarrow>
   query_loop get limit pl off acc reqs =
     Some (case on_exception err acc of None \<Rightarrow> Inr acc | Some e \<Rightarrow> Inl e, reqs @ [(pl, off)])"
  by (subst query_loop.simps) (simp split: option.splits)

lemma on_exception_break:
  "on_exception err acc = None \<longleftrightarrow> err = not_found \<and> acc \<noteq> []"
  by (cases err) (auto simp: not_found_def split: err_body.splits)


text \<open>
  Claim C1. Let the first \<open>n\<close> pages of a paginated query succeed with the bodies
  \<open>bs\<close>, and let the request for the next page be made and fail with \<open>err\<close>. If
  \<open>err\<close> is the "not found" answer (status 404, \<open>error\<close> equal to \<open>Not Found\<close>) and at
  least one page was collected (\<open>0 < n\<close>), the loop ends without raising and the query
  returns the bodies collected so far. Otherwise, that is for "not found" on the
  very first page and for any other failure on any page, an exception reaches the caller.
\<close>

theorem not_found_sentinel:
  assumes pages: "map (get (page_limit limit)) (page_offsets (start_offset offset) n) = map Ok bs"
    and requested: "lt_limit (start_offset offset + max_entries_per_request * int n) limit"
    and failed: "get (page_limit limit) (start_offset offset + max_entries_per_request * int n) = Raised err"
  shows "if err = not_found \<and> 0 < n
         then \<exists>reqs. query_builder get limit offset = Some (Inr bs, reqs)
         else \<exists>e reqs. query_builder get limit offset = Some (Inl e, reqs)"
proof -
  let ?off = "start_offset offset"
  let ?end = "?off + max_entries_per_request * int n"
  have len: "length bs = n"
    using arg_cong[OF pages, of length] by (simp add: length_page_offsets)
  have "\<forall>x \<in> set (page_offsets ?off n). lt_limit x limit"
    using requested page_offsets_le lt_limit_mono by (metis less_imp_le)
  with pages query_loop_ok_pages[of get "page_limit limit" ?off n bs limit "[]" "[]"]
  have "query_builder get limit offset =
        query_loop get limit (page_limit limit) ?end bs (map (Pair (page_limit limit)) (page_offsets ?off n))"
    by (simp add: query_builder_def)
  also have "\<dots> = Some (case on_exception err bs of None \<Rightarrow> Inr bs | Some e \<Rightarrow> Inl e,
      map (Pair (page_limit limit)) (page_offsets ?off n) @ [(page_limit limit, ?end)])"
    using requested failed by (simp add: query_loop_raised)
  finally have qb: "query_builder get limit offset =
      Some (case on_exception err bs of None \<Rightarrow> Inr bs | Some e \<Rightarrow> Inl e,
      map (Pair (page_limit limit)) (page_offsets ?off n) @ [(page_limit limit, ?end)])" .
  have brk: "on_exception err bs = None \<longleftrightarrow> err = not_found \<and> 0 < n"
    using len by (auto simp: on_exception_break)
  show ?thesis
  proof (cases "err = not_found \<and> 0 < n")
    case True
    then have "on_exception err bs = None" using brk by simp
    with True qb show ?thesis by simp
  next
    case False
    then obtain e where "on_exception err bs = Some e" using brk by (cases "on_exception err bs") auto
    with False qb show ?thesis by simp
  qed
qed

theorem not_found_sentinel_witness:
  "(\<exists>reqs. query_builder two_pages None None = Some (Inr [''p0'', ''p1''], reqs))
   \<and> (\<exists>e reqs. query_builder two_pages (Some 20) (Some 10) = Some (Inl e, reqs))"
  using not_found_sentinel[of two_pages None None "Suc (Suc 0)" "[''p0'', ''p1'']" not_found]
    not_found_sentinel[of two_pages "Some 20" "Some 10" 0 "[]" not_found]
  by (simp add: page_offsets_def page_limit_def max_entries_per_request_def)

lemma map_snd_Pair: "map snd (map (Pair pl) xs) = xs"
  by (induction xs) auto

lemma ok_pages_bodies:
  assumes "\<forall>x \<in> set xs. is_ok (get x)"
  shows "map get xs = map Ok (map (\<lambda>x. the (body_of (get x))) xs)"
  using assms
proof (induction xs)
  case Nil
  then show ?case by simp
next
  case (Cons x xs)
  then have "is_ok (get x)" by simp
  then have "get x = Ok (the (body_of (get x)))" by (cases "get x") auto
  with Cons show ?case by simp
qed

text \<open>
  Claim C2. For every limit \<open>k * maxPageSize + r\<close> with \<open>r\<close> the positive remainder
  (\<open>0 < r\<close>, and \<open>r\<close> at most \<open>maxPageSize = 5\<close>), starting offset 0 and every page fetch
  succeeding, the query returns after exactly \<open>k + 1\<close> requests, whose offsets are
  \<open>0, maxPageSize, \<dots>, k * maxPageSize\<close> in this order.
\<close>

theorem offsets_of_pages:
  assumes r: "0 < r" "r \<le> max_entries_per_request"
    and limit: "limit = max_entries_per_request * int k + r"
    and ok: "\<And>x. is_ok (get (page_limit (Some limit)) x)"
  shows "\<exists>bs reqs. query_builder get (Some limit) (Some 0) = Some (Inr bs, reqs)
           \<and> length reqs = k + 1
           \<and> map snd reqs = map (\<lambda>i. max_entries_per_request * int i) [0..<k + 1]"
proof -
  let ?pl = "page_limit (Some limit)"
  let ?offs = "page_offsets 0 (Suc k)"
  let ?bs = "map (\<lambda>x. the (body_of (get ?pl x))) ?offs"
  have pages: "map (get ?pl) ?offs = map Ok ?bs"
    by (rule ok_pages_bodies) (simp add: ok)
  have below: "\<forall>x \<in> set ?offs. lt_limit x (Some limit)"
    using r limit by (auto simp: page_offsets_def max_entries_per_request_def)
  have stop: "\<not> lt_limit (0 + max_entries_per_request * int (Suc k)) (Some limit)"
    using r limit by (simp add: max_entries_per_request_def)
  have "query_builder get (Some limit) (Some 0) =
        query_loop get (Some limit) ?pl (0 + max_entries_per_request * int (Suc k))
          ([] @ ?bs) ([] @ map (Pair ?pl) ?offs)"
    unfolding query_builder_def start_offset.simps
    using pages below by (rule query_loop_ok_pages)
  also have "\<dots> = Some (Inr ([] @ ?bs), [] @ map (Pair ?pl) ?offs)"
    using stop by (rule query_loop_stop)
  finally have "query_builder get (Some limit) (Some 0) = Some (Inr ?bs, map (Pair ?pl) ?offs)"
    by simp
  moreover have "length (map (Pair ?pl) ?offs) = k + 1"
    by (simp add: length_page_offsets)
  moreover have "map snd (map (Pair ?pl) ?offs) = map (\<lambda>i. max_entries_per_request * int i) [0..<k + 1]"
    by (simp only: map_snd_Pair) (simp add: page_offsets_def)
  ultimately show ?thesis by blast
qed

theorem offsets_of_pages_witness:
  "\<exists>bs reqs. query_builder always_ok (Some 12) (Some 0) = Some (Inr bs, reqs)
      \<and> length reqs = 3 \<and> map snd reqs = [0, 5, 10]"
  using offsets_of_pages[of 2 12 2 always_ok]
  by (simp add: max_entries_per_request_def upt_rec numeral_2_eq_2 numeral_3_eq_3)

text \<open>
  Claim C3, as the code has it. For every limit from 1 to \<open>maxPageSize = 5\<close>, with
  starting offset 0 and the fetch succeeding, the loop issues exactly one request, with
  \<open>limit\<close> as page size and offset 0, and returns its body. The loop tests
  \<open>offset < limit\<close> before each request, so the bound 1 is needed.
\<close>

theorem single_page:
  assumes "1 \<le> limit" "limit \<le> max_entries_per_request"
    and "is_ok (get (page_limit (Some limit)) 0)"
  shows "\<exists>b. query_builder get (Some limit) (Some 0) = Some (Inr [b], [(limit, 0)])"
proof -
  have pl: "page_limit (Some limit) = limit"
    using assms(2) by (simp add: page_limit_def)
  from assms(3) obtain b where b: "get limit 0 = Ok b"
    unfolding pl by (cases "get limit 0") auto
  have "query_builder get (Some limit) (Some 0) =
        query_loop get (Some limit) limit max_entries_per_request [b] [(limit, 0)]"
    unfolding query_builder_def pl start_offset.simps
    using assms(1) b by (subst query_loop.simps) simp
  also have "\<dots> = Some (Inr [b], [(limit, 0)])"
    using assms(2) by (simp add: query_loop_stop)
  finally show ?thesis by blast
qed

theorem single_page_witness:
  "\<exists>b. query_builder always_ok (Some 3) (Some 0) = Some (Inr [b], [(3, 0)])"
  using single_page[of 3 always_ok]
  by (simp add: max_entries_per_request_def page_limit_def)

text \<open>
  Claim C3 as stated includes limit 0, which is non-negative and at most
  \<open>maxPageSize\<close>. There \<open>0 < 0\<close> fails at once: no request is issued and the list of
  page bodies is empty.
\<close>

theorem limit_zero_no_request:
  "(0::int) \<le> 0 \<and> (0::int) \<le> max_entries_per_request
     \<and> is_ok (always_ok (page_limit (Some 0)) 0)
     \<and> query_builder always_ok (Some 0) (Some 0) = Some (Inr [], [])"
  by (simp add: max_entries_per_request_def query_builder_def query_loop_stop)

section \<open>Properties of the merge of a single-entity query\<close>

lemma index_extend_ts: "index (extend_ts self other) = index self @ index other"
  by (simp add: extend_ts_def)

lemma attrName_extend_attr: "attrName (extend_attr others a) = attrName a"
  by (simp add: extend_attr_def split: option.splits)

lemma attrNames_extend_ts:
  "map attrName (attributes (extend_ts self other)) = map attrName (attributes self)"
  by (simp add: extend_ts_def attrName_extend_attr)

lemma covers_extend_ts: "covers b (extend_ts self other) = covers b self"
  by (simp add: covers_def list_all_iff extend_ts_def attrName_extend_attr)

lemma find_name_Some:
  "n \<in> set (map attrName bs) \<Longrightarrow> \<exists>b \<in> set bs. find (\<lambda>b. attrName b = n) bs = Some b"
  by (induction bs) auto

lemma length_extend_attr:
  assumes "attrName a \<in> set (map attrName others)"
    and "list_all (\<lambda>b. length (attr_values b) = m) others"
    and "length (attr_values a) = l"
  shows "length (attr_values (extend_attr others a)) = l + m"
proof -
  from find_name_Some[OF assms(1)] obtain b
    where b: "b \<in> set others" "find (\<lambda>b. attrName b = attrName a) others = Some b"
    by blast
  then have "length (attr_values b) = m" using assms(2) by (simp add: list_all_iff)
  with b assms(3) show ?thesis by (simp add: extend_attr_def)
qed

lemma aligned_extend_ts:
  assumes "aligned self" "aligned other" "covers other self"
  shows "aligned (extend_ts self other)"
  using assms
  by (auto simp: aligned_def covers_def list_all_iff extend_ts_def
           intro!: length_extend_attr)

lemma foldl_extend_ts:
  assumes "aligned first" "\<forall>b \<in> set items. aligned b \<and> covers b first"
  shows "aligned (foldl extend_ts first items)
       \<and> length (index (foldl extend_ts first items)) =
           length (index first) + sum_list (map (\<lambda>b. length (index b)) items)"
  using assms
proof (induction items arbitrary: first)
  case Nil
  then show ?case by simp
next
  case (Cons b items)
  have 1: "aligned (extend_ts first b)"
    using Cons.prems by (simp add: aligned_extend_ts)
  have 2: "\<forall>c \<in> set items. aligned c \<and> covers c (extend_ts first b)"
    using Cons.prems by (simp add: covers_extend_ts)
  from Cons.IH[OF 1 2] show ?case
    by (simp add: index_extend_ts)
qed

lemma extend_attr_values:
  "extend_attr others a =
     a\<lparr>attr_values := attr_values a @
        (case find (\<lambda>c. attrName c = attrName a) others of None \<Rightarrow> [] | Some c \<Rightarrow> attr_values c)\<rparr>"
  by (simp add: extend_attr_def split: option.splits)

lemma foldl_extend_ts_fields:
  "entityId (foldl extend_ts first items) = entityId first
   \<and> entityType (foldl extend_ts first items) = entityType first
   \<and> index (foldl extend_ts first items) = index first @ concat (map index items)
   \<and> attributes (foldl extend_ts first items) =
       map (\<lambda>a. a\<lparr>attr_values := attr_values a @
               concat (map (\<lambda>b. case find (\<lambda>c. attrName c = attrName a) (attributes b) of
                                   None \<Rightarrow> [] | Some c \<Rightarrow> attr_values c) items)\<rparr>)
           (attributes first)"
proof (induction items arbitrary: first)
  case Nil
  then show ?case by (simp add: map_idI)
next
  case (Cons b items)
  show ?case
    unfolding foldl_Cons
    by (simp add: Cons.IH[of "extend_ts first b"])
       (simp add: extend_ts_def extend_attr_values)
qed


lemma length_concat_index:
  "length (concat (map index pages)) = sum_list (map (\<lambda>b. length (index b)) pages)"
  by (induction pages) auto

text \<open>
  Claim C4, as the merge has it. Let a single-entity query collect the page bodies
  \<open>first # items\<close>, with index lengths \<open>l1, \<dots>, ln\<close>, each body with one value per
  index entry in every attribute, and each later body with an attribute of the same
  name for every attribute of the first body. Then \<open>get_entity_by_id\<close> returns the
  series of the first body extended page by page: its index is the concatenation of
  the page indexes, of length \<open>l1 + \<dots> + ln\<close>; its attributes are those of the first
  body, each with the values of the attribute of that name of every page, in page order;
  and every attribute has as many values as the index has entries.
\<close>

theorem merge_keeps_alignment:
  assumes "query_builder get limit offset = Some (Inr (first # items), reqs)"
    and "\<forall>b \<in> set (first # items). aligned b"
    and "\<forall>b \<in> set items. covers b first"
  shows "\<exists>ts. get_entity_by_id get limit offset = Some (Inr ts, reqs)
     \<and> entityId ts = entityId first \<and> entityType ts = entityType first
     \<and> index ts = concat (map index (first # items))
     \<and> length (index ts) = sum_list (map (\<lambda>b. length (index b)) (first # items))
     \<and> map attrName (attributes ts) = map attrName (attributes first)
     \<and> (\<forall>j < length (attributes first).
           attr_values (attributes ts ! j) =
             attr_values (attributes first ! j)
             @ concat (map (\<lambda>b. attr_values
                  (the (find (\<lambda>c. attrName c = attrName (attributes first ! j)) (attributes b))))
                  items))
     \<and> (\<forall>a \<in> set (attributes ts). length (attr_values a) = length (index ts))"
proof -
  let ?ts = "foldl extend_ts first items"
  have res: "get_entity_by_id get limit offset = Some (Inr ?ts, reqs)"
    using assms(1) by (simp add: get_entity_by_id_def)
  note f = foldl_extend_ts_fields[of first items]
  have idx: "index ?ts = concat (map index (first # items))"
    using f by simp
  have len: "length (index ?ts) = sum_list (map (\<lambda>b. length (index b)) (first # items))"
    unfolding idx by (rule length_concat_index)
  have names: "map attrName (attributes ?ts) = map attrName (attributes first)"
    using f by (simp add: comp_def)
  have vals: "\<forall>j < length (attributes first).
           attr_values (attributes ?ts ! j) =
             attr_values (attributes first ! j)
             @ concat (map (\<lambda>b. attr_values
                  (the (find (\<lambda>c. attrName c = attrName (attributes first ! j)) (attributes b))))
                  items)"
  proof (intro allI impI)
    fix j assume j: "j < length (attributes first)"
    let ?a = "attributes first ! j"
    have "\<forall>b \<in> set items. \<exists>c. find (\<lambda>c. attrName c = attrName ?a) (attributes b) = Some c"
    proof
      fix b assume b: "b \<in> set items"
      then have "covers b first" using assms(3) by simp
      then have "attrName ?a \<in> set (map attrName (attributes b))"
        using j by (simp add: covers_def list_all_iff)
      from find_name_Some[OF this]
      show "\<exists>c. find (\<lambda>c. attrName c = attrName ?a) (attributes b) = Some c" by blast
    qed
    then have m: "map (\<lambda>b. case find (\<lambda>c. attrName c = attrName ?a) (attributes b) of
                          None \<Rightarrow> [] | Some c \<Rightarrow> attr_values c) items =
               map (\<lambda>b. attr_values (the (find (\<lambda>c. attrName c = attrName ?a) (attributes b)))) items"
      by (intro map_cong) auto
    have "attr_values (attributes ?ts ! j) =
            attr_values ?a @ concat (map (\<lambda>b. case find (\<lambda>c. attrName c = attrName ?a) (attributes b) of
                          None \<Rightarrow> [] | Some c \<Rightarrow> attr_values c) items)"
      using f j by simp
    then show "attr_values (attributes ?ts ! j) =
             attr_values ?a
             @ concat (map (\<lambda>b. attr_values
                  (the (find (\<lambda>c. attrName c = attrName ?a) (attributes b)))) items)"
      by (simp only: m)
  qed
  have "aligned ?ts"
    using assms(2,3) foldl_extend_ts[of first items] by auto
  then have al: "\<forall>a \<in> set (attributes ?ts). length (attr_values a) = length (index ?ts)"
    by (simp add: aligned_def list_all_iff)
  from res f idx len names vals al show ?thesis by blast
qed

lemma series_service_pages:
  "query_builder series_service None None =
     Some (Inr [series_page0, series_page1], [(5, 0), (5, 5), (5, 10)])"
  by (simp add: query_builder_def query_loop.simps page_limit_def max_entries_per_request_def not_found_def)

theorem merge_keeps_alignment_witness:
  "aligned series_page0 \<and> aligned series_page1 \<and> covers series_page1 series_page0
   \<and> get_entity_by_id series_service None None =
       Some (Inr \<lparr>entityId = Some ''E1'', entityType = Some ''Room'',
                  index = [''t0'', ''t1'', ''t2''],
                  attributes = [\<lparr>attrName = ''temperature'', attr_values = [20, 21, 22]\<rparr>]\<rparr>,
             [(5, 0), (5, 5), (5, 10)])"
proof -
  have al: "\<forall>b \<in> set [series_page0, series_page1]. aligned b"
    by (simp add: aligned_def series_page0_def series_page1_def)
  have cov: "\<forall>b \<in> set [series_page1]. covers b series_page0"
    by (simp add: covers_def series_page0_def series_page1_def)
  from merge_keeps_alignment[OF series_service_pages al cov]
  obtain ts where ts: "get_entity_by_id series_service None None =
       Some (Inr ts, [(5, 0), (5, 5), (5, 10)])"
    and e: "entityId ts = entityId series_page0" "entityType ts = entityType series_page0"
    and i: "index ts = concat (map index [series_page0, series_page1])"
    and n: "map attrName (attributes ts) = map attrName (attributes series_page0)"
    and v: "\<forall>j < length (attributes series_page0).
           attr_values (attributes ts ! j) =
             attr_values (attributes series_page0 ! j)
             @ concat (map (\<lambda>b. attr_values
                  (the (find (\<lambda>c. attrName c = attrName (attributes series_page0 ! j)) (attributes b))))
                  [series_page1])"
    by blast
  from n obtain a where a: "attributes ts = [a]" "attrName a = ''temperature''"
    by (auto simp: series_page0_def)
  from v[rule_format, of 0] a have "attr_values a = [20, 21, 22]"
    by (simp add: series_page0_def series_page1_def)
  with a have "attributes ts = [\<lparr>attrName = ''temperature'', attr_values = [20, 21, 22]\<rparr>]"
    by simp
  with e i have "ts = \<lparr>entityId = Some ''E1'', entityType = Some ''Room'',
                  index = [''t0'', ''t1'', ''t2''],
                  attributes = [\<lparr>attrName = ''temperature'', attr_values = [20, 21, 22]\<rparr>]\<rparr>"
    by (simp add: series_page0_def series_page1_def)
  with ts al cov show ?thesis by simp
qed

lemma mixed_service_pages:
  "query_builder mixed_service None None =
     Some (Inr [mixed_page0, mixed_page1], [(5, 0), (5, 5), (5, 10)])"
  by (simp add: query_builder_def query_loop.simps page_limit_def max_entries_per_request_def not_found_def)

text \<open>
  Claim C4 as stated asks nothing of the attributes of the later pages. Here both pages
  have one value per index entry, but the second page has no \<open>temperature\<close>: the merged
  index has three entries and the attribute \<open>temperature\<close> keeps its two values.
\<close>

theorem mixed_attributes_not_aligned:
  "aligned mixed_page0 \<and> aligned mixed_page1
   \<and> get_entity_by_id mixed_service None None =
       Some (Inr \<lparr>entityId = Some ''E1'', entityType = Some ''Room'',
                  index = [''t0'', ''t1'', ''t2''],
                  attributes = [\<lparr>attrName = ''temperature'', attr_values = [20, 21]\<rparr>]\<rparr>,
             [(5, 0), (5, 5), (5, 10)])"
  by (simp add: get_entity_by_id_def mixed_service_pages aligned_def extend_ts_def extend_attr_def
        mixed_page0_def mixed_page1_def)

section \<open>Properties of the listing query and of the merge by type\<close>

text \<open>
  Claim C9. \<open>get_entities\<close> runs the whole page loop (it issues the requests \<open>reqs\<close>
  of \<open>__query_builder\<close>, which collects the bodies \<open>first # rest\<close>) but returns the
  first collected body only: a header that occurs only on pages after the first is
  not in the returned list.
\<close>

theorem get_entities_first_page_only:
  assumes "query_builder get limit offset = Some (Inr (first # rest), reqs)"
  shows "\<exists>res. get_entities get limit offset = Some (Inr res, reqs) \<and> res = first
           \<and> (\<forall>h \<in> set (concat rest). h \<notin> set first \<longrightarrow> h \<notin> set res)"
  using assms by (simp add: get_entities_def)

lemma headers_service_pages:
  "query_builder headers_service (Some 10) None =
     Some (Inr [[''E1'', ''E2'', ''E3'', ''E4'', ''E5''], [''E6'']], [(5, 0), (5, 5)])"
  by (simp add: query_builder_def query_loop.simps page_limit_def max_entries_per_request_def)

theorem get_entities_first_page_only_witness:
  "get_entities headers_service (Some 10) None =
     Some (Inr [''E1'', ''E2'', ''E3'', ''E4'', ''E5''], [(5, 0), (5, 5)])"
  using get_entities_first_page_only[OF headers_service_pages]
  by simp

lemma length_zip_extend: "length (zip_extend res chunk) = length res"
  by (induction res chunk rule: zip_extend.induct) auto

lemma nth_zip_extend:
  "i < length res \<Longrightarrow>
   zip_extend res chunk ! i =
     (if i < length chunk then extend_ts (res ! i) (chunk ! i) else res ! i)"
proof (induction res chunk arbitrary: i rule: zip_extend.induct)
  case (1 chunk)
  then show ?case by simp
next
  case (2 old res)
  then show ?case by simp
next
  case (3 old res new chunk)
  then show ?case by (cases i) auto
qed

lemma merge_type_chunks_positional:
  "\<exists>res'. merge_type_chunks et res (map Some fss) = Inr res'
      \<and> length res' = length res
      \<and> (\<forall>i < length res. res' ! i =
            foldl extend_ts (res ! i)
              (map (\<lambda>fs. TimeSeries et (fs ! i)) (filter (\<lambda>fs. i < length fs) fss)))"
proof (induction fss arbitrary: res)
  case Nil
  then show ?case by simp
next
  case (Cons fs fss)
  let ?res1 = "zip_extend res (map (TimeSeries et) fs)"
  from Cons.IH[of ?res1] obtain res' where
    r: "merge_type_chunks et ?res1 (map Some fss) = Inr res'"
    and l: "length res' = length ?res1"
    and n: "\<forall>i < length ?res1. res' ! i =
            foldl extend_ts (?res1 ! i)
              (map (\<lambda>fs. TimeSeries et (fs ! i)) (filter (\<lambda>fs. i < length fs) fss))"
    by blast
  have "merge_type_chunks et res (map Some (fs # fss)) = Inr res'"
    using r by simp
  moreover have "length res' = length res"
    using l by (simp add: length_zip_extend)
  moreover have "\<forall>i < length res. res' ! i =
            foldl extend_ts (res ! i)
              (map (\<lambda>fs. TimeSeries et (fs ! i)) (filter (\<lambda>fs. i < length fs) (fs # fss)))"
    using n by (simp add: length_zip_extend nth_zip_extend)
  ultimately show ?case by blast
qed

lemma merge_by_type_positional:
  assumes "field first = Some items" and "\<forall>b \<in> set rest. field b \<noteq> None"
  shows "\<exists>res. merge_by_type et field (first # rest) = Inr res
      \<and> length res = length items
      \<and> (\<forall>i < length items. res ! i =
            foldl extend_ts (TimeSeries et (items ! i))
              (map (\<lambda>fs. TimeSeries et (fs ! i))
                 (filter (\<lambda>fs. i < length fs) (map (\<lambda>b. the (field b)) rest))))"
proof -
  have eq: "map field rest = map Some (map (\<lambda>b. the (field b)) rest)"
    using assms(2) by (induction rest) auto
  have "merge_by_type et field (first # rest) =
        merge_type_chunks et (map (TimeSeries et) items) (map Some (map (\<lambda>b. the (field b)) rest))"
    unfolding eq[symmetric] by (simp add: assms(1))
  then show ?thesis
    using merge_type_chunks_positional[of et "map (TimeSeries et) items" "map (\<lambda>b. the (field b)) rest"]
    by (simp del: map_map)
qed

section \<open>Properties of \<open>Statement\<close>\<close>








section \<open>Properties of \<open>post_subscription\<close>\<close>

lemma post_outcome_not_TypeError: "post_outcome r \<noteq> Inl TypeError"
  by (cases r rule: post_outcome.cases) auto

lemma negative_throttling_rejected:
  "n < 0 \<Longrightarrow>
   post_subscription post orion_url ql_url entity_type entity_id id_pattern attrs
       observed_attributes notified_attributes (Some n) time_index_attribute = (Inl TypeError, [])"
  by (simp add: post_subscription_def Let_def)

lemma post_subscription_sent:
  assumes "\<not> (truthy_int throttling \<and> the throttling < 1)"
  shows "\<exists>params. post_subscription post orion_url ql_url entity_type entity_id id_pattern attrs
       observed_attributes notified_attributes throttling time_index_attribute =
       (post_outcome (post params), [params])"
proof -
  have "\<And>params. (case post params of
                  Ok u \<Rightarrow> (Inr (), [params])
                | Raised (Fail st body) \<Rightarrow> (Inl (HTTPError st), [params])
                | Raised NoResponse \<Rightarrow> (Inl RequestException, [params])) =
          (post_outcome (post params), [params])"
    by (simp split: response.splits failure.splits)
  then show ?thesis
    using assms unfolding post_subscription_def Let_def by (simp only: if_False) blast
qed

text \<open>
  Claim C8 at throttling 0. The value 0 is not positive, yet the call with
  \<open>throttling = 0\<close> behaves as the call without \<open>throttling\<close>: whatever the other
  arguments and the answer of the service, one request is made and no \<open>TypeError\<close> is
  raised. With a service that accepts the request, the call returns normally after a
  request that carries no \<open>throttling\<close> parameter. (A negative value is rejected before
  any request, and a positive one is sent: the two lemmas above.)
\<close>

theorem throttling_zero_not_rejected:
  "post_subscription post orion_url ql_url entity_type entity_id id_pattern attrs
       observed_attributes notified_attributes (Some 0) time_index_attribute =
   post_subscription post orion_url ql_url entity_type entity_id id_pattern attrs
       observed_attributes notified_attributes None time_index_attribute
   \<and> length (snd (post_subscription post orion_url ql_url entity_type entity_id id_pattern attrs
       observed_attributes notified_attributes (Some 0) time_index_attribute)) = 1
   \<and> fst (post_subscription post orion_url ql_url entity_type entity_id id_pattern attrs
       observed_attributes notified_attributes (Some 0) time_index_attribute) \<noteq> Inl TypeError
   \<and> post_subscription accepting_post ''http://orion:1026/v2'' ''http://ql:8668/v2''
       (Some ''Room'') None None None None None (Some 0) None =
      (Inr (), [[''orionUrl'' \<mapsto> PBytes ''http://orion:1026/v2'',
                 ''quantumleapUrl'' \<mapsto> PBytes ''http://ql:8668/v2'',
                 ''entityType'' \<mapsto> PStr ''Room'']])"
proof -
  have 1: "post_subscription post orion_url ql_url entity_type entity_id id_pattern attrs
       observed_attributes notified_attributes (Some 0) time_index_attribute =
     post_subscription post orion_url ql_url entity_type entity_id id_pattern attrs
       observed_attributes notified_attributes None time_index_attribute"
    unfolding post_subscription_def truthy_int.simps by simp
  have "\<not> (truthy_int (Some 0) \<and> the (Some 0) < 1)" by simp
  from post_subscription_sent[OF this] obtain params where
    p: "post_subscription post orion_url ql_url entity_type entity_id id_pattern attrs
       observed_attributes notified_attributes (Some 0) time_index_attribute =
       (post_outcome (post params), [params])"
    by blast
  have 2: "length (snd (post_subscription post orion_url ql_url entity_type entity_id id_pattern attrs
       observed_attributes notified_attributes (Some 0) time_index_attribute)) = 1"
    and 3: "fst (post_subscription post orion_url ql_url entity_type entity_id id_pattern attrs
       observed_attributes notified_attributes (Some 0) time_index_attribute) \<noteq> Inl TypeError"
    unfolding p by (simp_all add: post_outcome_not_TypeError)
  have 4: "post_subscription accepting_post ''http://orion:1026/v2'' ''http://ql:8668/v2''
       (Some ''Room'') None None None None None (Some 0) None =
      (Inr (), [[''orionUrl'' \<mapsto> PBytes ''http://orion:1026/v2'',
                 ''quantumleapUrl'' \<mapsto> PBytes ''http://ql:8668/v2'',
                 ''entityType'' \<mapsto> PStr ''Room'']])"
    by (simp add: post_subscription_def put_str_def)
  from 1 2 3 4 show ?thesis by blast
qed

section \<open>Properties of \<open>create_query\<close>\<close>









end
